theory Spec2Isabelle
  imports Complex_Main "HOL-Library.Sublist"
begin

section \<open>Event categories\<close>

text \<open>
  Modelled from the spec: the enumeration \<open>EventType\<close> of
  \<^verbatim>\<open>manim/event_handler/event_type.py\<close>, which the dispatcher imports and which is not
  among the inspected sources. The spec (section 3) lists six members and says that each
  carries a coarse class tag, \<^verbatim>\<open>mouse*\<close> or \<^verbatim>\<open>key*\<close>; the dispatcher reads the tag as a
  prefix of the member's string value. Only the prefix of each value is fixed by the spec.
\<close>

datatype EventType =
    MouseMotionEvent
  | MouseDragEvent
  | MousePressEvent
  | MouseReleaseEvent
  | KeyPressEvent
  | KeyReleaseEvent

fun event_type_value :: "EventType \<Rightarrow> string" where
  "event_type_value MouseMotionEvent = ''mouse_motion_event''"
| "event_type_value MouseDragEvent = ''mouse_drag_event''"
| "event_type_value MousePressEvent = ''mouse_press_event''"
| "event_type_value MouseReleaseEvent = ''mouse_release_event''"
| "event_type_value KeyPressEvent = ''key_press_event''"
| "event_type_value KeyReleaseEvent = ''key_release_event''"

text \<open>The members in declaration order: what iterating over the enumeration yields.\<close>

definition all_event_types :: "EventType list" where
  "all_event_types =
     [MouseMotionEvent, MouseDragEvent, MousePressEvent, MouseReleaseEvent,
      KeyPressEvent, KeyReleaseEvent]"

text \<open>Python's \<^verbatim>\<open>str.startswith\<close>.\<close>

definition startswith :: "string \<Rightarrow> string \<Rightarrow> bool" where
  "startswith s p = (take (length p) s = p)"

section \<open>Listener entries, payloads, collaborators\<close>

text \<open>
  Scene objects and callbacks are Python objects owned by other modules. The dispatcher
  only compares them and calls into them, so each is a reference (an identity); what the
  object behind a reference does is supplied by the collaborators below.
\<close>

type_synonym mobject_ref = nat
type_synonym callback_ref = nat

text \<open>
  Modelled from the spec: the class \<open>EventListner\<close> of
  \<^verbatim>\<open>manim/event_handler/event_listener.py\<close> (not among the inspected sources). Spec,
  section 3: an entry is \<^verbatim>\<open>{category, target, callback}\<close>; section 4.1: two entries compare
  equal by identity of target, callback and category. Equality of this record is exactly
  that comparison.
\<close>

record EventListner =
  mobject :: mobject_ref
  event_type :: EventType
  callback :: callback_ref

text \<open>
  An argument of \<^verbatim>\<open>add_listener\<close>/\<^verbatim>\<open>remove_listener\<close>: either an \<open>EventListner\<close> or some
  other object, which the \<^verbatim>\<open>assert isinstance\<close> of the source rejects.
\<close>

datatype pyobj = Listener EventListner | NotListener

type_synonym point = "real \<times> real \<times> real"
type_synonym symbol = int

text \<open>
  The keyword arguments \<^verbatim>\<open>**event_data\<close>. The dispatcher reads the dictionary at two keys
  only, \<^verbatim>\<open>"point"\<close> and \<^verbatim>\<open>"symbol"\<close>; a field that is \<open>None\<close> is a key that is absent, and
  reading it raises \<^verbatim>\<open>KeyError\<close>.
\<close>

record event_data =
  point :: "point option"
  symbol :: "symbol option"

text \<open>
  What a callback returns: Python's \<^verbatim>\<open>None\<close>, one of the two \<^verbatim>\<open>bool\<close> singletons, or any
  other object. The source tests \<^verbatim>\<open>is not None\<close> and \<^verbatim>\<open>is False\<close>, which are identity tests.
\<close>

datatype retval = RNone | RBool bool | ROther nat

datatype error = KeyError string | AssertionError | CallbackRaised nat

text \<open>
  The two capabilities the dispatcher consumes (spec, section 6). Callbacks are arbitrary
  Python code: they act on a world \<open>'w\<close> outside the dispatcher (they typically move their
  scene object), and they may raise. The hit test reads that world. As the spec's
  section 5 requires, a callback does not reenter or mutate the dispatcher itself.
\<close>

record 'w collaborators =
  is_point_touching :: "'w \<Rightarrow> mobject_ref \<Rightarrow> point \<Rightarrow> bool"
  run_callback :: "'w \<Rightarrow> callback_ref \<Rightarrow> mobject_ref \<Rightarrow> event_data \<Rightarrow> (nat + retval) \<times> 'w"

section \<open>The dispatcher\<close>

record EventDispatcher =
  event_listeners :: "EventType \<Rightarrow> EventListner list"
  mouse_point :: point
  mouse_drag_point :: point
  pressed_keys :: "symbol set"
  draggable_object_listeners :: "EventListner list"

text \<open>\<^verbatim>\<open>__init__\<close>\<close>

definition init :: EventDispatcher where
  "init =
     \<lparr> event_listeners = (\<lambda>et. []),
       mouse_point = (0, 0, 0),
       mouse_drag_point = (0, 0, 0),
       pressed_keys = {},
       draggable_object_listeners = [] \<rparr>"

fun add_listener :: "EventDispatcher \<Rightarrow> pyobj \<Rightarrow> error + EventDispatcher" where
  "add_listener s NotListener = Inl AssertionError"
| "add_listener s (Listener l) =
     Inr (s\<lparr>event_listeners :=
              (event_listeners s)(event_type l := event_listeners s (event_type l) @ [l])\<rparr>)"

text \<open>
  The loop \<^verbatim>\<open>while x in xs: xs.remove(x)\<close>; \<^verbatim>\<open>list.remove\<close> deletes the first element that
  compares equal.
\<close>

function remove_loop :: "'a \<Rightarrow> 'a list \<Rightarrow> 'a list" where
  "remove_loop x xs = (if x \<in> set xs then remove_loop x (remove1 x xs) else xs)"
  by pat_completeness auto
termination
  by (relation "measure (\<lambda>(x, xs). length xs)") (auto simp: length_remove1 dest!: length_pos_if_in_set)

declare remove_loop.simps [simp del]

text \<open>
  The \<^verbatim>\<open>try\<close> block of the source swallows whatever the loop raises; with a listener's
  category always a member of the enumeration, and equality always defined, nothing does.
\<close>

fun remove_listener :: "EventDispatcher \<Rightarrow> pyobj \<Rightarrow> error + EventDispatcher" where
  "remove_listener s NotListener = Inl AssertionError"
| "remove_listener s (Listener l) =
     Inr (s\<lparr>event_listeners :=
              (event_listeners s)(event_type l := remove_loop l (event_listeners s (event_type l)))\<rparr>)"

definition get_listeners_count :: "EventDispatcher \<Rightarrow> nat" where
  "get_listeners_count s = sum_list (map (\<lambda>key. length (event_listeners s key)) all_event_types)"

definition get_mouse_point :: "EventDispatcher \<Rightarrow> point" where
  "get_mouse_point s = mouse_point s"

definition get_mouse_drag_point :: "EventDispatcher \<Rightarrow> point" where
  "get_mouse_drag_point s = mouse_drag_point s"

definition is_key_pressed :: "EventDispatcher \<Rightarrow> symbol \<Rightarrow> bool" where
  "is_key_pressed s k = (k \<in> pressed_keys s)"

subsection \<open>dispatch\<close>

text \<open>
  The first \<^verbatim>\<open>if\<close>/\<^verbatim>\<open>elif\<close> chain of \<^verbatim>\<open>dispatch\<close>: the state update. A missing key raises
  before the assignment, so the error leaves the dispatcher as it was.
\<close>

fun update_state ::
  "'w collaborators \<Rightarrow> 'w \<Rightarrow> EventDispatcher \<Rightarrow> EventType \<Rightarrow> event_data \<Rightarrow> error + EventDispatcher"
where
  "update_state c w s MouseMotionEvent d =
     (case point d of
        None \<Rightarrow> Inl (KeyError ''point'')
      | Some p \<Rightarrow> Inr (s\<lparr>mouse_point := p\<rparr>))"
| "update_state c w s MouseDragEvent d =
     (case point d of
        None \<Rightarrow> Inl (KeyError ''point'')
      | Some p \<Rightarrow> Inr (s\<lparr>mouse_drag_point := p\<rparr>))"
| "update_state c w s KeyPressEvent d =
     (case symbol d of
        None \<Rightarrow> Inl (KeyError ''symbol'')
      | Some k \<Rightarrow> Inr (s\<lparr>pressed_keys := insert k (pressed_keys s)\<rparr>))"
| "update_state c w s KeyReleaseEvent d =
     (case symbol d of
        None \<Rightarrow> Inl (KeyError ''symbol'')
      | Some k \<Rightarrow> Inr (s\<lparr>pressed_keys := pressed_keys s - {k}\<rparr>))"
| "update_state c w s MousePressEvent d =
     Inr (s\<lparr>draggable_object_listeners :=
              filter (\<lambda>listener. is_point_touching c w (mobject listener) (mouse_point s))
                (event_listeners s MouseDragEvent)\<rparr>)"
| "update_state c w s MouseReleaseEvent d =
     Inr (s\<lparr>draggable_object_listeners := []\<rparr>)"

text \<open>
  One record of the log of a dispatch: the listener whose callback was called and what the
  call did (\<open>Inl\<close>: it raised).
\<close>

type_synonym call = "EventListner \<times> (nat + retval)"

text \<open>
  The three \<^verbatim>\<open>for\<close> statements of \<^verbatim>\<open>dispatch\<close> differ only in the test that guards the call:
  none on the drag and key paths, the hit test against \<^verbatim>\<open>self.mouse_point\<close> on the mouse
  path. (The \<^verbatim>\<open>assert isinstance\<close> of the drag loop always holds: the capture list is
  filled from the registry only.) The loop carries \<^verbatim>\<open>propagate_event\<close> and the world, and
  logs each call. It returns on the first \<^verbatim>\<open>False\<close>; a callback that raises ends it too.
\<close>

fun invoke_listeners ::
  "'w collaborators \<Rightarrow> ('w \<Rightarrow> EventListner \<Rightarrow> bool) \<Rightarrow> event_data \<Rightarrow> EventListner list \<Rightarrow>
     retval \<Rightarrow> 'w \<Rightarrow> (error + retval) \<times> 'w \<times> call list"
where
  "invoke_listeners c guard d [] propagate_event w = (Inr propagate_event, w, [])"
| "invoke_listeners c guard d (listener # rest) propagate_event w =
     (if guard w listener then
        (case run_callback c w (callback listener) (mobject listener) d of
           (Inl x, w') \<Rightarrow> (Inl (CallbackRaised x), w', [(listener, Inl x)])
         | (Inr v, w') \<Rightarrow>
             if v \<noteq> RNone \<and> v = RBool False then (Inr v, w', [(listener, Inr v)])
             else (case invoke_listeners c guard d rest v w' of
                     (r, w'', trace) \<Rightarrow> (r, w'', (listener, Inr v) # trace)))
      else invoke_listeners c guard d rest propagate_event w)"

record 'w outcome =
  returned :: "error + retval"
  dispatcher :: EventDispatcher
  world :: 'w
  calls :: "call list"

definition dispatch ::
  "'w collaborators \<Rightarrow> 'w \<Rightarrow> EventDispatcher \<Rightarrow> EventType \<Rightarrow> event_data \<Rightarrow> 'w outcome"
where
  "dispatch c w s et d =
     (case update_state c w s et d of
        Inl e \<Rightarrow> \<lparr> returned = Inl e, dispatcher = s, world = w, calls = [] \<rparr>
      | Inr s' \<Rightarrow>
          (case
             (if et = MouseDragEvent then
                invoke_listeners c (\<lambda>w listener. True) d (draggable_object_listeners s') RNone w
              else if startswith (event_type_value et) ''mouse'' then
                invoke_listeners c
                  (\<lambda>w listener. is_point_touching c w (mobject listener) (mouse_point s'))
                  d (event_listeners s' et) RNone w
              else if startswith (event_type_value et) ''key'' then
                invoke_listeners c (\<lambda>w listener. True) d (event_listeners s' et) RNone w
              else (Inr RNone, w, []))
           of (r, w', trace) \<Rightarrow> \<lparr> returned = r, dispatcher = s', world = w', calls = trace \<rparr>))"

subsection \<open>Reading a dispatch\<close>

text \<open>
  The sequence a dispatch iterates over and the test that guards each call, read off the
  second \<^verbatim>\<open>if\<close>/\<^verbatim>\<open>elif\<close> chain of \<^verbatim>\<open>dispatch\<close>; \<open>s\<close> is the dispatcher after the
  state update.
\<close>

definition candidates :: "EventDispatcher \<Rightarrow> EventType \<Rightarrow> EventListner list" where
  "candidates s et =
     (if et = MouseDragEvent then draggable_object_listeners s else event_listeners s et)"

definition guard_of ::
  "'w collaborators \<Rightarrow> EventDispatcher \<Rightarrow> EventType \<Rightarrow> 'w \<Rightarrow> EventListner \<Rightarrow> bool"
where
  "guard_of c s et =
     (if et = MouseDragEvent then (\<lambda>w listener. True)
      else if startswith (event_type_value et) ''mouse'' then
        (\<lambda>w listener. is_point_touching c w (mobject listener) (mouse_point s))
      else (\<lambda>w listener. True))"

text \<open>What a log says the loop returned, \<open>r0\<close> being \<^verbatim>\<open>propagate_event\<close> before the loop.\<close>

definition last_outcome :: "retval \<Rightarrow> call list \<Rightarrow> error + retval" where
  "last_outcome r0 trace =
     (if trace = [] then Inr r0
      else (case snd (last trace) of Inl x \<Rightarrow> Inl (CallbackRaised x) | Inr v \<Rightarrow> Inr v))"

text \<open>
  The reading of the result that claim C1 words: the last value that is not \<^verbatim>\<open>None\<close>
  among the values the callbacks returned, and \<^verbatim>\<open>None\<close> when there is none. It is compared
  with the source's result below; nothing else uses it.
\<close>

definition last_non_null :: "call list \<Rightarrow> retval" where
  "last_non_null trace =
     (case filter (\<lambda>v. v \<noteq> RNone) (concat (map (\<lambda>(l, out). case out of Inl x \<Rightarrow> [] | Inr v \<Rightarrow> [v]) trace)) of
        [] \<Rightarrow> RNone
      | v # vs \<Rightarrow> last (v # vs))"

subsection \<open>The host loop\<close>

text \<open>
  The host calls the dispatcher's three entry points one after the other. An exception
  that reaches the host leaves the dispatcher as the failing call left it.
\<close>

datatype host_call = Add pyobj | Remove pyobj | Dispatch EventType event_data

fun host_step ::
  "'w collaborators \<Rightarrow> EventDispatcher \<times> 'w \<Rightarrow> host_call \<Rightarrow> EventDispatcher \<times> 'w"
where
  "host_step c (s, w) (Add x) = (case add_listener s x of Inl e \<Rightarrow> (s, w) | Inr s' \<Rightarrow> (s', w))"
| "host_step c (s, w) (Remove x) =
     (case remove_listener s x of Inl e \<Rightarrow> (s, w) | Inr s' \<Rightarrow> (s', w))"
| "host_step c (s, w) (Dispatch et d) =
     (dispatcher (dispatch c w s et d), world (dispatch c w s et d))"

definition host_run ::
  "'w collaborators \<Rightarrow> EventDispatcher \<times> 'w \<Rightarrow> host_call list \<Rightarrow> EventDispatcher \<times> 'w"
where
  "host_run c sw ops = foldl (host_step c) sw ops"

text \<open>A dispatch on a dispatcher that was constructed and then driven through \<open>ops\<close>.\<close>

definition dispatch_after ::
  "'w collaborators \<Rightarrow> 'w \<Rightarrow> host_call list \<Rightarrow> EventType \<Rightarrow> event_data \<Rightarrow> 'w outcome"
where
  "dispatch_after c w ops et d =
     dispatch c (snd (host_run c (init, w) ops)) (fst (host_run c (init, w) ops)) et d"

definition is_dispatch_of :: "EventType \<Rightarrow> host_call \<Rightarrow> bool" where
  "is_dispatch_of et op = (case op of Dispatch et' d \<Rightarrow> et' = et | _ \<Rightarrow> False)"

subsection \<open>Concrete collaborators and entries\<close>

text \<open>
  A scene for the concrete instances below, on a world without state: every object
  covers the unit square around the origin and nothing else; callback 0 returns \<^verbatim>\<open>True\<close>,
  callback 1 returns \<^verbatim>\<open>None\<close>, callback 2 returns \<^verbatim>\<open>False\<close>, any other raises.
\<close>

definition unit_square :: "unit collaborators" where
  "unit_square =
     \<lparr> is_point_touching = (\<lambda>w m (x, y, z). \<bar>x\<bar> \<le> 1 \<and> \<bar>y\<bar> \<le> 1),
       run_callback = (\<lambda>w cb m d.
         (if cb = 0 then Inr (RBool True)
          else if cb = 1 then Inr RNone
          else if cb = 2 then Inr (RBool False)
          else Inl cb, w)) \<rparr>"

definition entry :: "EventType \<Rightarrow> mobject_ref \<Rightarrow> callback_ref \<Rightarrow> EventListner" where
  "entry et m cb = \<lparr> mobject = m, event_type = et, callback = cb \<rparr>"

definition at_point :: "real \<Rightarrow> real \<Rightarrow> event_data" where
  "at_point x y = \<lparr> point = Some (x, y, 0), symbol = None \<rparr>"

definition with_symbol :: "symbol \<Rightarrow> event_data" where
  "with_symbol k = \<lparr> point = None, symbol = Some k \<rparr>"

definition registered :: "EventListner list \<Rightarrow> EventDispatcher" where
  "registered ls = fst (host_run unit_square (init, ()) (map (\<lambda>l. Add (Listener l)) ls))"

lemmas concrete_defs =
  registered_def host_run_def entry_def at_point_def with_symbol_def init_def unit_square_def
  dispatch_def startswith_def candidates_def guard_of_def last_outcome_def last_non_null_def
  dispatch_after_def

section \<open>The invocation loop\<close>

lemma invoke_cons:
  "invoke_listeners c g d (l # ls) r0 w =
     (if g w l then
        (case run_callback c w (callback l) (mobject l) d of
           (Inl x, w') \<Rightarrow> (Inl (CallbackRaised x), w', [(l, Inl x)])
         | (Inr v, w') \<Rightarrow>
             if v = RBool False then (Inr v, w', [(l, Inr v)])
             else (fst (invoke_listeners c g d ls v w'),
                   fst (snd (invoke_listeners c g d ls v w')),
                   (l, Inr v) # snd (snd (invoke_listeners c g d ls v w'))))
      else invoke_listeners c g d ls r0 w)"
  by (auto split: prod.splits sum.splits)

lemma invoke_stop:
  "e \<in> set (butlast (snd (snd (invoke_listeners c g d ls r0 w)))) \<Longrightarrow>
     \<exists>v. snd e = Inr v \<and> v \<noteq> RBool False"
proof (induction ls arbitrary: r0 w)
  case Nil
  then show ?case by simp
next
  case (Cons l ls)
  then show ?case
    by (auto simp: invoke_cons simp del: invoke_listeners.simps split: if_splits prod.splits sum.splits)
qed

lemma invoke_subseq:
  "subseq (map fst (snd (snd (invoke_listeners c g d ls r0 w)))) ls"
proof (induction ls arbitrary: r0 w)
  case Nil
  show ?case by simp
next
  case (Cons l ls)
  show ?case
    by (auto simp: invoke_cons Cons.IH simp del: invoke_listeners.simps split: prod.splits sum.splits)
qed

lemma invoke_only:
  "l \<in> fst ` set (snd (snd (invoke_listeners c g d ls r0 w))) \<Longrightarrow> \<exists>w'. g w' l"
proof (induction ls arbitrary: r0 w)
  case Nil
  then show ?case by simp
next
  case (Cons a ls)
  then show ?case
    by (auto simp: invoke_cons simp del: invoke_listeners.simps split: if_splits prod.splits sum.splits)
qed

lemma invoke_all:
  "fst (invoke_listeners c g d ls r0 w) = Inr r \<Longrightarrow> r \<noteq> RBool False \<Longrightarrow>
   l \<in> set ls \<Longrightarrow> \<forall>w'. g w' l \<Longrightarrow>
   l \<in> fst ` set (snd (snd (invoke_listeners c g d ls r0 w)))"
proof (induction ls arbitrary: r0 w)
  case Nil
  then show ?case by simp
next
  case (Cons a ls)
  then show ?case
    by (auto simp: invoke_cons simp del: invoke_listeners.simps split: if_splits prod.splits sum.splits)
qed

lemma invoke_unguarded:
  "fst (invoke_listeners c (\<lambda>w l. True) d ls r0 w) = Inr r \<Longrightarrow> r \<noteq> RBool False \<Longrightarrow>
   map fst (snd (snd (invoke_listeners c (\<lambda>w l. True) d ls r0 w))) = ls"
proof (induction ls arbitrary: r0 w)
  case Nil
  then show ?case by simp
next
  case (Cons a ls)
  then show ?case
    by (auto simp: invoke_cons simp del: invoke_listeners.simps split: if_splits prod.splits sum.splits)
qed

lemma invoke_first:
  "g w l \<Longrightarrow> map fst (take 1 (snd (snd (invoke_listeners c g d (l # ls) r0 w)))) = [l]"
  by (auto simp: invoke_cons simp del: invoke_listeners.simps split: if_splits prod.splits sum.splits)

lemma invoke_single_hit:
  "g w l \<Longrightarrow> map fst (snd (snd (invoke_listeners c g d [l] r0 w))) = [l]"
  by (auto split: prod.splits sum.splits)

lemma invoke_single_miss:
  "\<not> g w l \<Longrightarrow> invoke_listeners c g d [l] r0 w = (Inr r0, w, [])"
  by simp

lemma invoke_same_callbacks:
  "run_callback c' = run_callback c \<Longrightarrow>
   invoke_listeners c' g d ls r0 w = invoke_listeners c g d ls r0 w"
  by (induction ls arbitrary: r0 w) (simp_all split: prod.splits sum.splits)

lemma invoke_result:
  "fst (invoke_listeners c g d ls r0 w) =
     last_outcome r0 (snd (snd (invoke_listeners c g d ls r0 w)))"
proof (induction ls arbitrary: r0 w)
  case Nil
  show ?case by (simp add: last_outcome_def)
next
  case (Cons l ls)
  show ?case
  proof (cases "g w l")
    case False
    then show ?thesis using Cons.IH [of r0 w] by simp
  next
    case True
    obtain out w' where rc: "run_callback c w (callback l) (mobject l) d = (out, w')"
      by (cases "run_callback c w (callback l) (mobject l) d")
    show ?thesis
    proof (cases out)
      case (Inl x)
      with True rc show ?thesis by (simp add: last_outcome_def)
    next
      case (Inr v)
      show ?thesis
      proof (cases "v = RBool False")
        case True
        with \<open>g w l\<close> rc Inr show ?thesis by (simp add: last_outcome_def)
      next
        case False
        obtain r w'' tr where rest: "invoke_listeners c g d ls v w' = (r, w'', tr)"
          by (cases "invoke_listeners c g d ls v w'")
        from Cons.IH [of v w'] rest have "r = last_outcome v tr" by simp
        with False \<open>g w l\<close> rc Inr rest show ?thesis
          by (auto simp: last_outcome_def)
      qed
    qed
  qed
qed

section \<open>Dispatch: the two phases\<close>

lemma update_state_listeners:
  "update_state c w s et d = Inr s' \<Longrightarrow> event_listeners s' = event_listeners s"
  by (cases et) (auto split: option.splits)

lemma update_state_error:
  "update_state c w s et d = Inl e \<Longrightarrow> e = KeyError ''point'' \<or> e = KeyError ''symbol''"
  by (cases et) (auto split: option.splits)

lemma dispatch_error:
  "update_state c w s et d = Inl e \<Longrightarrow>
     dispatch c w s et d = \<lparr> returned = Inl e, dispatcher = s, world = w, calls = [] \<rparr>"
  by (simp add: dispatch_def)

lemma dispatch_loop:
  "update_state c w s et d = Inr s' \<Longrightarrow>
     dispatch c w s et d =
       \<lparr> returned = fst (invoke_listeners c (guard_of c s' et) d (candidates s' et) RNone w),
         dispatcher = s',
         world = fst (snd (invoke_listeners c (guard_of c s' et) d (candidates s' et) RNone w)),
         calls = snd (snd (invoke_listeners c (guard_of c s' et) d (candidates s' et) RNone w)) \<rparr>"
  by (cases et) (simp_all add: dispatch_def guard_of_def candidates_def startswith_def split: prod.splits)

lemma dispatch_key_error:
  assumes "update_state c w s et d = Inl e"
  shows "\<exists>k. dispatch c w s et d = \<lparr> returned = Inl (KeyError k), dispatcher = s, world = w, calls = [] \<rparr>"
proof -
  from update_state_error [OF assms] obtain k where k: "e = KeyError k" by blast
  show ?thesis using dispatch_error [OF assms] k by simp
qed

lemma invoke_stop_all:
  fixes x :: "(error + retval) \<times> 'w \<times> call list"
  assumes "x = invoke_listeners c g d ls r0 w"
  shows "\<forall>e \<in> set (butlast (snd (snd x))). \<exists>v. snd e = Inr v \<and> v \<noteq> RBool False"
proof
  fix e assume "e \<in> set (butlast (snd (snd x)))"
  then show "\<exists>v. snd e = Inr v \<and> v \<noteq> RBool False"
    unfolding assms by (rule invoke_stop)
qed

lemma invoke_all_guarded:
  fixes x :: "(error + retval) \<times> 'w \<times> call list"
  assumes "x = invoke_listeners c g d ls r0 w"
  shows "\<forall>r l. fst x = Inr r \<and> r \<noteq> RBool False \<and> l \<in> set ls
      \<and> (\<forall>w'. g w' l) \<longrightarrow> l \<in> fst ` set (snd (snd x))"
proof (intro allI impI)
  fix r l
  assume h: "fst x = Inr r \<and> r \<noteq> RBool False \<and> l \<in> set ls \<and> (\<forall>w'. g w' l)"
  show "l \<in> fst ` set (snd (snd x))"
    unfolding assms
    by (rule invoke_all [of c g d ls r0 w r l]) (use h assms in simp_all)
qed

lemma dispatch_dispatcher:
  "dispatcher (dispatch c w s et d) = (case update_state c w s et d of Inl e \<Rightarrow> s | Inr s' \<Rightarrow> s')"
  by (cases "update_state c w s et d") (simp_all add: dispatch_error dispatch_loop)

lemma dispatch_calls:
  "calls (dispatch c w s et d) =
     (case update_state c w s et d of
        Inl e \<Rightarrow> []
      | Inr s' \<Rightarrow> snd (snd (invoke_listeners c (guard_of c s' et) d (candidates s' et) RNone w)))"
  by (cases "update_state c w s et d") (simp_all add: dispatch_error dispatch_loop)

lemma dispatch_returned:
  "returned (dispatch c w s et d) =
     (case update_state c w s et d of
        Inl e \<Rightarrow> Inl e
      | Inr s' \<Rightarrow> fst (invoke_listeners c (guard_of c s' et) d (candidates s' et) RNone w))"
  by (cases "update_state c w s et d") (simp_all add: dispatch_error dispatch_loop)

lemma dispatch_world:
  "world (dispatch c w s et d) =
     (case update_state c w s et d of
        Inl e \<Rightarrow> w
      | Inr s' \<Rightarrow> fst (snd (invoke_listeners c (guard_of c s' et) d (candidates s' et) RNone w)))"
  by (cases "update_state c w s et d") (simp_all add: dispatch_error dispatch_loop)

lemma drag_dispatch:
  "dispatch c w s MouseDragEvent \<lparr>point = Some Q, symbol = k\<rparr> =
     \<lparr> returned = fst (invoke_listeners c (\<lambda>w l. True) \<lparr>point = Some Q, symbol = k\<rparr>
                      (draggable_object_listeners s) RNone w),
       dispatcher = s\<lparr>mouse_drag_point := Q\<rparr>,
       world = fst (snd (invoke_listeners c (\<lambda>w l. True) \<lparr>point = Some Q, symbol = k\<rparr>
                      (draggable_object_listeners s) RNone w)),
       calls = snd (snd (invoke_listeners c (\<lambda>w l. True) \<lparr>point = Some Q, symbol = k\<rparr>
                      (draggable_object_listeners s) RNone w)) \<rparr>"
  by (simp add: dispatch_def split: prod.splits)

lemma motion_calls:
  "calls (dispatch c w s MouseMotionEvent \<lparr>point = Some Q, symbol = k\<rparr>) =
     snd (snd (invoke_listeners c (\<lambda>w l. is_point_touching c w (mobject l) Q)
                 \<lparr>point = Some Q, symbol = k\<rparr> (event_listeners s MouseMotionEvent) RNone w))"
  by (simp add: dispatch_def startswith_def split: prod.splits)

section \<open>Sequences of host calls\<close>

lemma host_run_Nil: "host_run c sw [] = sw"
  by (simp add: host_run_def)

lemma host_run_Cons: "host_run c sw (op # ops) = host_run c (host_step c sw op) ops"
  by (simp add: host_run_def)

lemma step_keeps_empty_capture:
  assumes "\<not> is_dispatch_of MousePressEvent op" and "draggable_object_listeners (fst sw) = []"
  shows "draggable_object_listeners (fst (host_step c sw op)) = []"
proof (cases sw)
  case (Pair s w)
  show ?thesis
  proof (cases op)
    case (Add x)
    with Pair assms show ?thesis by (cases x) simp_all
  next
    case (Remove x)
    with Pair assms show ?thesis by (cases x) simp_all
  next
    case (Dispatch et d)
    with Pair assms show ?thesis
      by (cases et) (simp_all add: dispatch_dispatcher is_dispatch_of_def split: option.splits)
  qed
qed

lemma run_keeps_empty_capture:
  "\<forall>op \<in> set ops. \<not> is_dispatch_of MousePressEvent op \<Longrightarrow>
   draggable_object_listeners (fst sw) = [] \<Longrightarrow>
   draggable_object_listeners (fst (host_run c sw ops)) = []"
proof (induction ops arbitrary: sw)
  case Nil
  then show ?case by (simp add: host_run_Nil)
next
  case (Cons op ops)
  have "draggable_object_listeners (fst (host_step c sw op)) = []"
    using Cons.prems by (intro step_keeps_empty_capture) simp_all
  with Cons show ?case by (simp add: host_run_Cons)
qed

lemma step_keeps_mouse_point:
  assumes "\<not> is_dispatch_of MouseMotionEvent op"
  shows "mouse_point (fst (host_step c sw op)) = mouse_point (fst sw)"
proof (cases sw)
  case (Pair s w)
  show ?thesis
  proof (cases op)
    case (Add x)
    with Pair show ?thesis by (cases x) simp_all
  next
    case (Remove x)
    with Pair show ?thesis by (cases x) simp_all
  next
    case (Dispatch et d)
    with Pair assms show ?thesis
      by (cases et) (simp_all add: dispatch_dispatcher is_dispatch_of_def split: option.splits)
  qed
qed

lemma run_keeps_mouse_point:
  "\<forall>op \<in> set ops. \<not> is_dispatch_of MouseMotionEvent op \<Longrightarrow>
   mouse_point (fst (host_run c sw ops)) = mouse_point (fst sw)"
proof (induction ops arbitrary: sw)
  case Nil
  then show ?case by (simp add: host_run_Nil)
next
  case (Cons op ops)
  then show ?case by (simp add: host_run_Cons step_keeps_mouse_point)
qed

lemma drag_without_capture:
  assumes "draggable_object_listeners s = []" and "point d = Some Q"
  shows "dispatch c w s MouseDragEvent d =
     \<lparr> returned = Inr RNone, dispatcher = s\<lparr>mouse_drag_point := Q\<rparr>, world = w, calls = [] \<rparr>"
  using assms by (simp add: dispatch_def)

section \<open>Registry: removal\<close>

lemma remove_loop_removeAll: "remove_loop x xs = removeAll x xs"
proof (induction x xs rule: remove_loop.induct)
  case (1 x xs)
  show ?case
  proof (cases "x \<in> set xs")
    case True
    have "removeAll x (remove1 x xs) = removeAll x xs"
      by (induction xs) auto
    with True "1" show ?thesis
      by (subst remove_loop.simps) simp
  next
    case False
    then show ?thesis
      by (subst remove_loop.simps) simp
  qed
qed

lemma length_removeAll_count: "length (removeAll x xs) + count_list xs x = length xs"
  by (induction xs) auto

lemma count_update:
  "get_listeners_count (s\<lparr>event_listeners := (event_listeners s)(k := xs)\<rparr>) + length (event_listeners s k)
     = get_listeners_count s + length xs"
  by (cases k) (simp_all add: get_listeners_count_def all_event_types_def)

text \<open>
  C7. Removing an entry that is not registered (in its category's sequence) raises
  nothing and returns the dispatcher unchanged: registry, count and all other fields.
\<close>

theorem remove_absent_noop:
  assumes "l \<notin> set (event_listeners s (event_type l))"
  shows "remove_listener s (Listener l) = Inr s"
  using assms by (simp add: remove_loop_removeAll)

theorem remove_absent_noop_witness:
  "entry KeyPressEvent 7 0
     \<notin> set (event_listeners (registered [entry KeyPressEvent 0 0])
           (event_type (entry KeyPressEvent 7 0)))
   \<and> remove_listener (registered [entry KeyPressEvent 0 0]) (Listener (entry KeyPressEvent 7 0))
       = Inr (registered [entry KeyPressEvent 0 0])"
  using remove_absent_noop [of "entry KeyPressEvent 7 0" "registered [entry KeyPressEvent 0 0]"]
  by (simp add: concrete_defs)

section \<open>Propagation and the returned value\<close>

text \<open>
  C1 (as amended). For every dispatch whose payload has the field its category needs:
  the value returned is the outcome of the last callback invoked, whatever it is
  (\<^verbatim>\<open>None\<close> included), and \<^verbatim>\<open>None\<close> when no callback is invoked; a callback that returned
  \<^verbatim>\<open>False\<close>, or that raised, can only be the last one invoked, so a \<^verbatim>\<open>False\<close> ends the
  dispatch and is what it returns; the callbacks invoked are candidates, in candidate
  order; and when the dispatch returns anything but \<^verbatim>\<open>False\<close> (so \<^verbatim>\<open>True\<close> did not stop
  it), every candidate whose guard holds was invoked.
\<close>

theorem dispatch_result:
  "(returned (dispatch c w s et d) = last_outcome RNone (calls (dispatch c w s et d))
      \<or> (\<exists>k. returned (dispatch c w s et d) = Inl (KeyError k)
               \<and> calls (dispatch c w s et d) = []
               \<and> dispatcher (dispatch c w s et d) = s))
   \<and> (\<forall>e \<in> set (butlast (calls (dispatch c w s et d))). \<exists>v. snd e = Inr v \<and> v \<noteq> RBool False)
   \<and> subseq (map fst (calls (dispatch c w s et d))) (candidates (dispatcher (dispatch c w s et d)) et)
   \<and> (\<forall>r l. returned (dispatch c w s et d) = Inr r \<and> r \<noteq> RBool False
          \<and> l \<in> set (candidates (dispatcher (dispatch c w s et d)) et)
          \<and> (\<forall>w'. guard_of c (dispatcher (dispatch c w s et d)) et w' l)
        \<longrightarrow> l \<in> fst ` set (calls (dispatch c w s et d)))"
proof (cases "update_state c w s et d")
  case (Inl e)
  from dispatch_key_error [OF Inl] obtain k where
    eq: "dispatch c w s et d = \<lparr> returned = Inl (KeyError k), dispatcher = s, world = w, calls = [] \<rparr>"
    by blast
  show ?thesis unfolding eq by simp
next
  case (Inr s')
  define x where "x = invoke_listeners c (guard_of c s' et) d (candidates s' et) RNone w"
  have eq: "dispatch c w s et d =
      \<lparr> returned = fst x, dispatcher = s', world = fst (snd x), calls = snd (snd x) \<rparr>"
    unfolding x_def by (rule dispatch_loop [OF Inr])
  have a: "fst x = last_outcome RNone (snd (snd x))"
    unfolding x_def by (rule invoke_result)
  note b = invoke_stop_all [OF x_def]
  have c: "subseq (map fst (snd (snd x))) (candidates s' et)"
    unfolding x_def by (rule invoke_subseq)
  note d = invoke_all_guarded [OF x_def]
  have sel: "returned (dispatch c w s et d) = fst x" "calls (dispatch c w s et d) = snd (snd x)"
    "dispatcher (dispatch c w s et d) = s'"
    by (simp_all add: eq)
  show ?thesis
    unfolding sel
    by (intro conjI disjI1 a b c d)
qed

text \<open>
  An instance: two key-press listeners, the first returning \<^verbatim>\<open>True\<close>, the second \<^verbatim>\<open>None\<close>.
  The second is invoked after the \<^verbatim>\<open>True\<close>, and the dispatch returns its \<^verbatim>\<open>None\<close>.
\<close>

theorem dispatch_result_witness:
  "returned (dispatch unit_square () (registered [entry KeyPressEvent 0 0, entry KeyPressEvent 0 1])
      KeyPressEvent (with_symbol 5)) = Inr RNone
   \<and> RNone \<noteq> RBool False
   \<and> entry KeyPressEvent 0 1 \<in> set (candidates (dispatcher (dispatch unit_square ()
        (registered [entry KeyPressEvent 0 0, entry KeyPressEvent 0 1]) KeyPressEvent (with_symbol 5))) KeyPressEvent)
   \<and> guard_of unit_square (dispatcher (dispatch unit_square ()
        (registered [entry KeyPressEvent 0 0, entry KeyPressEvent 0 1]) KeyPressEvent (with_symbol 5)))
        KeyPressEvent () (entry KeyPressEvent 0 1)
   \<and> entry KeyPressEvent 0 1 \<in> fst ` set (calls (dispatch unit_square ()
        (registered [entry KeyPressEvent 0 0, entry KeyPressEvent 0 1]) KeyPressEvent (with_symbol 5)))
   \<and> (entry KeyPressEvent 0 0, Inr (RBool True)) \<in> set (butlast (calls (dispatch unit_square ()
        (registered [entry KeyPressEvent 0 0, entry KeyPressEvent 0 1]) KeyPressEvent (with_symbol 5))))"
  using dispatch_result [of unit_square "()" "registered [entry KeyPressEvent 0 0, entry KeyPressEvent 0 1]"
      KeyPressEvent "with_symbol 5"]
  by (simp add: concrete_defs)

text \<open>
  C1 as worded takes the returned value to be the last value recorded that is not
  \<^verbatim>\<open>None\<close>. On the same instance that value is \<^verbatim>\<open>True\<close>, and the source returns \<^verbatim>\<open>None\<close>:
  every returned value overwrites \<^verbatim>\<open>propagate_event\<close>.
\<close>

theorem dispatch_last_non_null_counterexample:
  "map snd (calls (dispatch unit_square ()
      (registered [entry KeyPressEvent 0 0, entry KeyPressEvent 0 1]) KeyPressEvent (with_symbol 5)))
     = [Inr (RBool True), Inr RNone]
   \<and> last_non_null (calls (dispatch unit_square ()
      (registered [entry KeyPressEvent 0 0, entry KeyPressEvent 0 1]) KeyPressEvent (with_symbol 5)))
     = RBool True
   \<and> returned (dispatch unit_square ()
      (registered [entry KeyPressEvent 0 0, entry KeyPressEvent 0 1]) KeyPressEvent (with_symbol 5))
     = Inr RNone"
  by (simp add: concrete_defs)

section \<open>The capture at a press\<close>

text \<open>
  C2 (as amended). After \<^verbatim>\<open>dispatch(MousePress, payload)\<close> the drag capture set is exactly
  the subsequence of the \<^verbatim>\<open>MouseDrag\<close> entries whose target's hit test holds at the
  dispatcher's pointer position (the point of the last \<^verbatim>\<open>MouseMotion\<close>), in registration
  order, whatever the payload of the press is; in particular it is the entries touching
  \<open>P\<close> when the press follows a \<^verbatim>\<open>MouseMotion\<close> at \<open>P\<close>.
\<close>

theorem press_captures_at_mouse_point:
  "draggable_object_listeners (dispatcher (dispatch c w s MousePressEvent d)) =
     filter (\<lambda>l. is_point_touching c w (mobject l) (mouse_point s)) (event_listeners s MouseDragEvent)
   \<and> draggable_object_listeners (dispatcher (dispatch c
         (world (dispatch c w s MouseMotionEvent \<lparr>point = Some P, symbol = k\<rparr>))
         (dispatcher (dispatch c w s MouseMotionEvent \<lparr>point = Some P, symbol = k\<rparr>))
         MousePressEvent d)) =
     filter (\<lambda>l. is_point_touching c
                (world (dispatch c w s MouseMotionEvent \<lparr>point = Some P, symbol = k\<rparr>)) (mobject l) P)
       (event_listeners s MouseDragEvent)"
  by (simp add: dispatch_dispatcher)

text \<open>
  C2 as worded tests the targets against the point of the press payload. Here the pointer
  position is the origin, the press carries the point (5, 5), the target covers the origin
  and not (5, 5): the entry is captured.
\<close>

theorem press_ignores_payload_point_counterexample:
  "draggable_object_listeners (dispatcher (dispatch unit_square ()
       (registered [entry MouseDragEvent 0 0]) MousePressEvent (at_point 5 5)))
     = [entry MouseDragEvent 0 0]
   \<and> point (at_point 5 5) = Some (5, 5, 0)
   \<and> \<not> is_point_touching unit_square () (mobject (entry MouseDragEvent 0 0)) (5, 5, 0)
   \<and> event_listeners (registered [entry MouseDragEvent 0 0]) MouseDragEvent = [entry MouseDragEvent 0 0]"
  by (simp add: concrete_defs)

section \<open>Held keys\<close>

text \<open>
  C8. For every key symbol \<open>k\<close>: after a \<^verbatim>\<open>KeyPress\<close> with symbol \<open>k\<close> the key is reported
  pressed; after a following \<^verbatim>\<open>KeyRelease\<close> with \<open>k\<close> (indeed after any \<^verbatim>\<open>KeyRelease\<close> with
  \<open>k\<close>) it is not; and a \<^verbatim>\<open>KeyRelease\<close> of a symbol that is not held leaves the set of held
  keys as it was and raises nothing of its own: what the dispatch returns is what its
  callbacks produced, \<^verbatim>\<open>None\<close> when there is no listener.
\<close>

theorem key_press_release:
  assumes "symbol d = Some k"
  shows "is_key_pressed (dispatcher (dispatch c w s KeyPressEvent d)) k
   \<and> \<not> is_key_pressed (dispatcher (dispatch c (world (dispatch c w s KeyPressEvent d))
                          (dispatcher (dispatch c w s KeyPressEvent d)) KeyReleaseEvent d)) k
   \<and> \<not> is_key_pressed (dispatcher (dispatch c w s KeyReleaseEvent d)) k
   \<and> (k \<notin> pressed_keys s \<longrightarrow>
        pressed_keys (dispatcher (dispatch c w s KeyReleaseEvent d)) = pressed_keys s
        \<and> returned (dispatch c w s KeyReleaseEvent d) = last_outcome RNone (calls (dispatch c w s KeyReleaseEvent d))
        \<and> (event_listeners s KeyReleaseEvent = [] \<longrightarrow> returned (dispatch c w s KeyReleaseEvent d) = Inr RNone))"
  using assms
  by (simp add: dispatch_dispatcher dispatch_returned dispatch_calls is_key_pressed_def candidates_def invoke_result [symmetric])

theorem key_press_release_witness:
  "symbol (with_symbol 5) = Some 5
   \<and> is_key_pressed (dispatcher (dispatch unit_square () init KeyPressEvent (with_symbol 5))) 5
   \<and> \<not> is_key_pressed (dispatcher (dispatch unit_square
          (world (dispatch unit_square () init KeyPressEvent (with_symbol 5)))
          (dispatcher (dispatch unit_square () init KeyPressEvent (with_symbol 5)))
          KeyReleaseEvent (with_symbol 5))) 5
   \<and> 5 \<notin> pressed_keys init
   \<and> pressed_keys (dispatcher (dispatch unit_square () init KeyReleaseEvent (with_symbol 5)))
       = pressed_keys init
   \<and> event_listeners init KeyReleaseEvent = []
   \<and> returned (dispatch unit_square () init KeyReleaseEvent (with_symbol 5)) = Inr RNone"
  using key_press_release [where d = "with_symbol 5" and k = 5 and c = unit_square and w = "()"
      and s = init]
  by (simp add: concrete_defs is_key_pressed_def)

section \<open>A payload without the field its category needs\<close>

text \<open>
  C9. A dispatch whose payload lacks the field its category reads (\<^verbatim>\<open>point\<close> for
  \<^verbatim>\<open>MouseMotion\<close> and \<^verbatim>\<open>MouseDrag\<close>, \<^verbatim>\<open>symbol\<close> for \<^verbatim>\<open>KeyPress\<close> and \<^verbatim>\<open>KeyRelease\<close>) fails with a
  \<^verbatim>\<open>KeyError\<close>, calls nothing, and leaves the dispatcher (pointer position, drag anchor,
  held keys, capture set, registry) and the world as they were.
\<close>

theorem missing_field_fails:
  assumes "(et \<in> {MouseMotionEvent, MouseDragEvent} \<and> point d = None)
         \<or> (et \<in> {KeyPressEvent, KeyReleaseEvent} \<and> symbol d = None)"
  shows "dispatch c w s et d =
     \<lparr> returned = Inl (KeyError (if et \<in> {MouseMotionEvent, MouseDragEvent} then ''point'' else ''symbol'')),
       dispatcher = s, world = w, calls = [] \<rparr>"
  using assms by (auto simp: dispatch_def)

theorem missing_field_fails_witness:
  "((MouseDragEvent \<in> {MouseMotionEvent, MouseDragEvent} \<and> point (with_symbol 3) = None)
    \<or> (MouseDragEvent \<in> {KeyPressEvent, KeyReleaseEvent} \<and> symbol (with_symbol 3) = None))
   \<and> dispatch unit_square () (registered [entry MouseDragEvent 0 0]) MouseDragEvent (with_symbol 3) =
     \<lparr> returned = Inl (KeyError ''point''),
       dispatcher = registered [entry MouseDragEvent 0 0], world = (), calls = [] \<rparr>"
  using missing_field_fails [of MouseDragEvent "with_symbol 3" unit_square "()" "registered [entry MouseDragEvent 0 0]"]
  by (simp add: with_symbol_def)

section \<open>Registry: adding, then removing\<close>

text \<open>
  C6 (as amended). For every dispatcher state and every listener entry \<open>E\<close>: \<^verbatim>\<open>remove(E)\<close>
  deletes all occurrences in \<open>E\<close>'s category that compare equal to \<open>E\<close>, keeps the other
  entries in order, and touches nothing else; so \<^verbatim>\<open>add(E)\<close> followed by \<^verbatim>\<open>remove(E)\<close> leaves
  the count at its value before the add minus the number of occurrences of \<open>E\<close> that were
  registered before the add, and returns the dispatcher (hence the count) to what it was
  when \<open>E\<close> was not registered before.
\<close>

theorem add_then_remove:
  "\<exists>s1 s2 s3.
     add_listener s (Listener l) = Inr s1
   \<and> remove_listener s1 (Listener l) = Inr s2
   \<and> event_listeners s2 =
        (event_listeners s)(event_type l := removeAll l (event_listeners s (event_type l)))
   \<and> s2 = s\<lparr>event_listeners := event_listeners s2\<rparr>
   \<and> get_listeners_count s2 + count_list (event_listeners s (event_type l)) l = get_listeners_count s
   \<and> (l \<notin> set (event_listeners s (event_type l)) \<longrightarrow>
        s2 = s \<and> get_listeners_count s2 = get_listeners_count s)
   \<and> remove_listener s (Listener l) = Inr s3
   \<and> event_listeners s3 =
        (event_listeners s)(event_type l := removeAll l (event_listeners s (event_type l)))"
proof -
  let ?k = "event_type l"
  let ?r = "removeAll l (event_listeners s ?k)"
  let ?s2 = "s\<lparr>event_listeners := (event_listeners s)(?k := ?r)\<rparr>"
  have a: "remove_listener (s\<lparr>event_listeners := (event_listeners s)(?k := event_listeners s ?k @ [l])\<rparr>)
             (Listener l) = Inr ?s2"
    by (simp add: remove_loop_removeAll)
  have b: "get_listeners_count ?s2 + count_list (event_listeners s ?k) l = get_listeners_count s"
    using count_update [of s ?k ?r] length_removeAll_count [of l "event_listeners s ?k"] by arith
  have c: "l \<notin> set (event_listeners s ?k) \<longrightarrow> ?s2 = s"
    by simp
  have d: "remove_listener s (Listener l) = Inr ?s2"
    by (simp add: remove_loop_removeAll)
  show ?thesis
    apply (rule exI [of _ "s\<lparr>event_listeners := (event_listeners s)(?k := event_listeners s ?k @ [l])\<rparr>"])
    apply (rule exI [of _ ?s2])
    apply (rule exI [of _ ?s2])
    using a b c d apply simp
    done
qed

theorem add_then_remove_witness:
  "entry KeyPressEvent 0 0 \<notin> set (event_listeners (registered [entry KeyPressEvent 1 1]) (event_type (entry KeyPressEvent 0 0)))
   \<and> fst (host_run unit_square (registered [entry KeyPressEvent 1 1], ())
        [Add (Listener (entry KeyPressEvent 0 0)), Remove (Listener (entry KeyPressEvent 0 0))])
      = registered [entry KeyPressEvent 1 1]
   \<and> get_listeners_count (registered [entry KeyPressEvent 1 1]) = 1"
  using add_then_remove [of "registered [entry KeyPressEvent 1 1]" "entry KeyPressEvent 0 0"]
  by (simp add: concrete_defs remove_loop_removeAll get_listeners_count_def all_event_types_def)

text \<open>
  C6 as worded holds for every state. With \<open>E\<close> registered once already, the count is 1
  before the add and 0 after the removal: both copies go.
\<close>

theorem add_then_remove_present_counterexample:
  "get_listeners_count (registered [entry KeyPressEvent 0 0]) = 1
   \<and> get_listeners_count (fst (host_run unit_square (registered [entry KeyPressEvent 0 0], ())
        [Add (Listener (entry KeyPressEvent 0 0)), Remove (Listener (entry KeyPressEvent 0 0))])) = 0"
  by (simp add: concrete_defs remove_loop_removeAll get_listeners_count_def all_event_types_def)

section \<open>Release\<close>

text \<open>
  C5. After any dispatch of \<^verbatim>\<open>MouseRelease\<close> the drag capture set is empty; it stays empty
  through every sequence of host calls (registrations, removals, dispatches) that holds no
  \<^verbatim>\<open>MousePress\<close> dispatch; and a \<^verbatim>\<open>MouseDrag\<close> dispatched with a point after such a sequence
  invokes no callback and returns \<^verbatim>\<open>None\<close>.
\<close>

theorem release_clears_capture:
  fixes c :: "'w collaborators" and w :: 'w and s :: EventDispatcher and d :: event_data
    and ops :: "host_call list" and Q :: point and k :: "symbol option"
  defines "released \<equiv> dispatch c w s MouseReleaseEvent d"
  defines "later \<equiv> host_run c (dispatcher released, world released) ops"
  defines "drag \<equiv> dispatch c (snd later) (fst later) MouseDragEvent \<lparr>point = Some Q, symbol = k\<rparr>"
  assumes "\<forall>op \<in> set ops. \<not> is_dispatch_of MousePressEvent op"
  shows "draggable_object_listeners (dispatcher released) = []
       \<and> draggable_object_listeners (fst later) = []
       \<and> calls drag = []
       \<and> returned drag = Inr RNone"
proof -
  have a: "draggable_object_listeners (dispatcher released) = []"
    by (simp add: released_def dispatch_dispatcher)
  have b: "draggable_object_listeners (fst later) = []"
    unfolding later_def using assms(4) a by (intro run_keeps_empty_capture) simp_all
  have "drag = \<lparr> returned = Inr RNone, dispatcher = (fst later)\<lparr>mouse_drag_point := Q\<rparr>,
                  world = snd later, calls = [] \<rparr>"
    unfolding drag_def by (rule drag_without_capture [OF b]) simp
  with a b show ?thesis by simp
qed

text \<open>
  An instance: a drag listener is captured by a press at the origin; after the release,
  a motion and a drag, a further drag calls nothing.
\<close>

theorem release_clears_capture_witness:
  "is_point_touching unit_square () 0 (0, 0, 0)
   \<and> draggable_object_listeners (dispatcher (dispatch_after unit_square ()
        [Add (Listener (entry MouseDragEvent 0 0))] MousePressEvent (at_point 0 0)))
       = [entry MouseDragEvent 0 0]
   \<and> \<not> is_dispatch_of MousePressEvent (Dispatch MouseMotionEvent (at_point 0 0))
   \<and> \<not> is_dispatch_of MousePressEvent (Dispatch MouseDragEvent (at_point 0 0))
   \<and> calls (dispatch_after unit_square ()
        [Add (Listener (entry MouseDragEvent 0 0)), Dispatch MousePressEvent (at_point 0 0),
         Dispatch MouseReleaseEvent (at_point 0 0),
         Dispatch MouseMotionEvent (at_point 0 0), Dispatch MouseDragEvent (at_point 0 0)]
        MouseDragEvent (at_point 0 0)) = []
   \<and> returned (dispatch_after unit_square ()
        [Add (Listener (entry MouseDragEvent 0 0)), Dispatch MousePressEvent (at_point 0 0),
         Dispatch MouseReleaseEvent (at_point 0 0),
         Dispatch MouseMotionEvent (at_point 0 0), Dispatch MouseDragEvent (at_point 0 0)]
        MouseDragEvent (at_point 0 0)) = Inr RNone"
  using release_clears_capture [where c = unit_square and w = "()"
      and s = "fst (host_run unit_square (init, ())
                 [Add (Listener (entry MouseDragEvent 0 0)), Dispatch MousePressEvent (at_point 0 0)])"
      and d = "at_point 0 0"
      and ops = "[Dispatch MouseMotionEvent (at_point 0 0), Dispatch MouseDragEvent (at_point 0 0)]"
      and Q = "(0, 0, 0)" and k = None]
  by (simp add: concrete_defs is_dispatch_of_def)

section \<open>A fresh dispatcher\<close>

text \<open>
  C10. On a freshly constructed dispatcher the pointer position and the drag anchor are
  the origin, and the held-key set and the drag capture set are empty. After any sequence
  of host calls that holds no \<^verbatim>\<open>MouseMotion\<close> dispatch the pointer position is still the
  origin, and a \<^verbatim>\<open>MousePress\<close> then captures exactly the \<^verbatim>\<open>MouseDrag\<close> entries whose target
  touches the origin, whatever the payload of the press.
\<close>

theorem fresh_dispatcher:
  fixes c :: "'w collaborators" and w :: 'w and ops :: "host_call list" and d :: event_data
  defines "sw \<equiv> host_run c (init, w) ops"
  assumes "\<forall>op \<in> set ops. \<not> is_dispatch_of MouseMotionEvent op"
  shows "mouse_point init = (0, 0, 0)
       \<and> mouse_drag_point init = (0, 0, 0)
       \<and> pressed_keys init = {}
       \<and> draggable_object_listeners init = []
       \<and> mouse_point (fst sw) = (0, 0, 0)
       \<and> draggable_object_listeners (dispatcher (dispatch c (snd sw) (fst sw) MousePressEvent d)) =
           filter (\<lambda>l. is_point_touching c (snd sw) (mobject l) (0, 0, 0))
             (event_listeners (fst sw) MouseDragEvent)"
proof -
  have "mouse_point (fst sw) = mouse_point init"
    unfolding sw_def using run_keeps_mouse_point [OF assms(2), of c "(init, w)"] by simp
  then have a: "mouse_point (fst sw) = (0, 0, 0)"
    by (simp add: init_def)
  show ?thesis
    using a by (simp add: dispatch_dispatcher) (simp add: init_def)
qed

text \<open>
  An instance: the press carries the point (5, 5), which the target does not cover; the
  entry is captured all the same, its target covering the origin.
\<close>

theorem fresh_dispatcher_witness:
  "\<not> is_dispatch_of MouseMotionEvent (Add (Listener (entry MouseDragEvent 0 0)))
   \<and> \<not> is_dispatch_of MouseMotionEvent (Dispatch MouseDragEvent (at_point 5 5))
   \<and> \<not> is_point_touching unit_square () 0 (5, 5, 0)
   \<and> draggable_object_listeners (dispatcher (dispatch_after unit_square ()
        [Add (Listener (entry MouseDragEvent 0 0)), Dispatch MouseDragEvent (at_point 5 5)]
        MousePressEvent (at_point 5 5))) = [entry MouseDragEvent 0 0]"
  using fresh_dispatcher [where c = unit_square and w = "()" and d = "at_point 5 5"
      and ops = "[Add (Listener (entry MouseDragEvent 0 0)), Dispatch MouseDragEvent (at_point 5 5)]"]
  by (simp add: concrete_defs is_dispatch_of_def)

section \<open>The press scenario\<close>

text \<open>
  C3 (as amended). Listener \<open>L1\<close> is registered on \<^verbatim>\<open>MousePress\<close> for a target \<open>T1\<close> whose
  bounds cover (0, 0) and exclude (5, 5), on a fresh dispatcher. Dispatching \<^verbatim>\<open>MouseMotion\<close>
  at (0, 0) sets the pointer position to (0, 0) and invokes nothing; dispatching
  \<^verbatim>\<open>MousePress\<close> at (0, 0) then invokes \<open>L1\<close> exactly once; dispatching \<^verbatim>\<open>MousePress\<close> at
  (5, 5) next invokes \<open>L1\<close> once more, the pointer position still being (0, 0); once a
  \<^verbatim>\<open>MouseMotion\<close> at (5, 5) has been dispatched, a \<^verbatim>\<open>MousePress\<close> at (5, 5) does not invoke
  \<open>L1\<close>.
\<close>

theorem press_scenario:
  fixes c :: "'w collaborators" and w :: 'w and T1 :: mobject_ref and cb :: callback_ref
  defines "L1 \<equiv> \<lparr> mobject = T1, event_type = MousePressEvent, callback = cb \<rparr>"
  assumes cover: "\<forall>w. is_point_touching c w T1 (0, 0, 0)"
    and miss: "\<forall>w. \<not> is_point_touching c w T1 (5, 5, 0)"
  shows "mouse_point (dispatcher (dispatch_after c w [Add (Listener L1)]
            MouseMotionEvent (at_point 0 0))) = (0, 0, 0)
       \<and> calls (dispatch_after c w [Add (Listener L1)] MouseMotionEvent (at_point 0 0)) = []
       \<and> map fst (calls (dispatch_after c w
            [Add (Listener L1), Dispatch MouseMotionEvent (at_point 0 0)]
            MousePressEvent (at_point 0 0))) = [L1]
       \<and> map fst (calls (dispatch_after c w
            [Add (Listener L1), Dispatch MouseMotionEvent (at_point 0 0),
             Dispatch MousePressEvent (at_point 0 0)]
            MousePressEvent (at_point 5 5))) = [L1]
       \<and> calls (dispatch_after c w
            [Add (Listener L1), Dispatch MouseMotionEvent (at_point 0 0),
             Dispatch MousePressEvent (at_point 0 0), Dispatch MouseMotionEvent (at_point 5 5)]
            MousePressEvent (at_point 5 5)) = []"
proof -
  note run = dispatch_after_def host_run_Cons host_run_Nil dispatch_dispatcher dispatch_world
    dispatch_calls candidates_def guard_of_def startswith_def at_point_def init_def
  have a: "mouse_point (dispatcher (dispatch_after c w [Add (Listener L1)]
            MouseMotionEvent (at_point 0 0))) = (0, 0, 0)"
    by (simp add: run)
  have b: "calls (dispatch_after c w [Add (Listener L1)] MouseMotionEvent (at_point 0 0)) = []"
    by (simp add: run L1_def)
  have c: "map fst (calls (dispatch_after c w
            [Add (Listener L1), Dispatch MouseMotionEvent (at_point 0 0)]
            MousePressEvent (at_point 0 0))) = [L1]"
    using cover by (simp add: run L1_def invoke_single_hit del: invoke_listeners.simps)
  have d: "map fst (calls (dispatch_after c w
            [Add (Listener L1), Dispatch MouseMotionEvent (at_point 0 0),
             Dispatch MousePressEvent (at_point 0 0)]
            MousePressEvent (at_point 5 5))) = [L1]"
    using cover by (simp add: run L1_def invoke_single_hit del: invoke_listeners.simps)
  have e: "calls (dispatch_after c w
            [Add (Listener L1), Dispatch MouseMotionEvent (at_point 0 0),
             Dispatch MousePressEvent (at_point 0 0), Dispatch MouseMotionEvent (at_point 5 5)]
            MousePressEvent (at_point 5 5)) = []"
    using miss by (simp add: run L1_def invoke_single_miss del: invoke_listeners.simps)
  from a b c d e show ?thesis by (intro conjI)
qed

theorem press_scenario_witness:
  "is_point_touching unit_square () 1 (0, 0, 0)
   \<and> \<not> is_point_touching unit_square () 1 (5, 5, 0)
   \<and> map fst (calls (dispatch_after unit_square ()
        [Add (Listener (entry MousePressEvent 1 0)), Dispatch MouseMotionEvent (at_point 0 0)]
        MousePressEvent (at_point 0 0))) = [entry MousePressEvent 1 0]
   \<and> calls (dispatch_after unit_square ()
        [Add (Listener (entry MousePressEvent 1 0)), Dispatch MouseMotionEvent (at_point 0 0),
         Dispatch MousePressEvent (at_point 0 0), Dispatch MouseMotionEvent (at_point 5 5)]
        MousePressEvent (at_point 5 5)) = []"
  using press_scenario [where c = unit_square and w = "()" and ?T1.0 = 1 and cb = 0]
  by (simp add: concrete_defs)

text \<open>
  C3 as worded has the press at (5, 5) leave \<open>L1\<close> alone. It is invoked: the hit test
  reads the pointer position, (0, 0) since the motion, and not the payload of the press.
\<close>

theorem press_scenario_counterexample:
  "is_point_touching unit_square () 1 (0, 0, 0)
   \<and> \<not> is_point_touching unit_square () 1 (5, 5, 0)
   \<and> map fst (calls (dispatch_after unit_square ()
        [Add (Listener (entry MousePressEvent 1 0)), Dispatch MouseMotionEvent (at_point 0 0),
         Dispatch MousePressEvent (at_point 0 0)]
        MousePressEvent (at_point 5 5))) = [entry MousePressEvent 1 0]"
  by (simp add: concrete_defs)

section \<open>Drag against motion\<close>

text \<open>
  C4 (as amended). Let a \<^verbatim>\<open>MouseDrag\<close> listener be in the drag capture set, and let the
  pointer move to \<open>Q\<close> (a \<^verbatim>\<open>MouseMotion\<close> at \<open>Q\<close>, which leaves the capture set as it was).
  Dispatching \<^verbatim>\<open>MouseDrag\<close> at \<open>Q\<close> performs no hit test (its outcome is the same under any
  hit test whatever), so a target that \<open>Q\<close> misses does not keep its listener from being
  invoked: the first captured listener is always invoked, and every captured listener is
  invoked whenever the dispatch returns a value other than \<^verbatim>\<open>False\<close>, that is unless a
  captured listener ahead of it returned \<^verbatim>\<open>False\<close> or raised. A \<^verbatim>\<open>MouseMotion\<close> listener whose
  target's hit test is false at \<open>Q\<close> is not invoked by dispatching \<^verbatim>\<open>MouseMotion\<close> at \<open>Q\<close>.
\<close>

theorem drag_is_sticky:
  fixes c :: "'w collaborators" and w :: 'w and s :: EventDispatcher and Q :: point
    and k :: "symbol option" and l l' :: EventListner
  defines "moved \<equiv> dispatch c w s MouseMotionEvent \<lparr>point = Some Q, symbol = k\<rparr>"
  defines "drag \<equiv> dispatch c (world moved) (dispatcher moved) MouseDragEvent
                     \<lparr>point = Some Q, symbol = k\<rparr>"
  shows "mouse_point (dispatcher moved) = Q
       \<and> draggable_object_listeners (dispatcher moved) = draggable_object_listeners s
       \<and> (\<forall>f. dispatch (c\<lparr>is_point_touching := f\<rparr>) (world moved) (dispatcher moved)
                 MouseDragEvent \<lparr>point = Some Q, symbol = k\<rparr> = drag)
       \<and> (\<forall>rest. draggable_object_listeners s = l # rest \<longrightarrow> map fst (take 1 (calls drag)) = [l])
       \<and> (l \<in> set (draggable_object_listeners s)
            \<and> (\<exists>r. returned drag = Inr r \<and> r \<noteq> RBool False)
          \<longrightarrow> l \<in> fst ` set (calls drag))
       \<and> ((\<forall>w'. \<not> is_point_touching c w' (mobject l') Q) \<longrightarrow> l' \<notin> fst ` set (calls moved))"
proof -
  have a: "mouse_point (dispatcher moved) = Q"
    and b: "draggable_object_listeners (dispatcher moved) = draggable_object_listeners s"
    by (simp_all add: moved_def dispatch_dispatcher)
  have c: "\<forall>f. dispatch (c\<lparr>is_point_touching := f\<rparr>) (world moved) (dispatcher moved)
                 MouseDragEvent \<lparr>point = Some Q, symbol = k\<rparr> = drag"
    unfolding drag_def drag_dispatch
    by (simp add: invoke_same_callbacks [of "c\<lparr>is_point_touching := f\<rparr>" c for f])
  have d: "\<forall>rest. draggable_object_listeners s = l # rest \<longrightarrow> map fst (take 1 (calls drag)) = [l]"
  proof (intro allI impI)
    fix rest
    assume "draggable_object_listeners s = l # rest"
    then show "map fst (take 1 (calls drag)) = [l]"
      unfolding drag_def drag_dispatch
      using invoke_first [of "\<lambda>w l. True" "world moved" l c "\<lparr>point = Some Q, symbol = k\<rparr>" rest RNone]
      by (simp add: b del: invoke_listeners.simps)
  qed
  have e: "l \<in> set (draggable_object_listeners s)
            \<and> (\<exists>r. returned drag = Inr r \<and> r \<noteq> RBool False)
          \<longrightarrow> l \<in> fst ` set (calls drag)"
  proof (intro impI, elim conjE exE)
    fix r
    assume "l \<in> set (draggable_object_listeners s)" "returned drag = Inr r" "r \<noteq> RBool False"
    then show "l \<in> fst ` set (calls drag)"
      unfolding drag_def drag_dispatch
      by (simp add: b del: invoke_listeners.simps) (rule invoke_all, simp_all)
  qed
  have f: "(\<forall>w'. \<not> is_point_touching c w' (mobject l') Q) \<longrightarrow> l' \<notin> fst ` set (calls moved)"
  proof (intro impI notI)
    assume no: "\<forall>w'. \<not> is_point_touching c w' (mobject l') Q"
      and "l' \<in> fst ` set (calls moved)"
    then have "l' \<in> fst ` set (snd (snd (invoke_listeners c (\<lambda>w l. is_point_touching c w (mobject l) Q)
                 \<lparr>point = Some Q, symbol = k\<rparr> (event_listeners s MouseMotionEvent) RNone w)))"
      by (simp add: moved_def motion_calls)
    from invoke_only [OF this] no show False by simp
  qed
  from a b c d e f show ?thesis by (intro conjI)
qed

text \<open>
  An instance: one object carries a drag listener and a motion listener. Pressed at the
  origin and moved to (5, 5), outside the object, the drag listener is invoked by the
  drag and the motion listener is not invoked by the motion.
\<close>

theorem drag_is_sticky_witness:
  "entry MouseDragEvent 0 0 \<in> set (draggable_object_listeners (fst (host_run unit_square (init, ())
          [Add (Listener (entry MouseDragEvent 0 0)), Add (Listener (entry MouseMotionEvent 0 0)),
           Dispatch MousePressEvent (at_point 0 0)])))
   \<and> \<not> is_point_touching unit_square () 0 (5, 5, 0)
   \<and> returned (dispatch_after unit_square ()
          [Add (Listener (entry MouseDragEvent 0 0)), Add (Listener (entry MouseMotionEvent 0 0)),
           Dispatch MousePressEvent (at_point 0 0), Dispatch MouseMotionEvent (at_point 5 5)]
          MouseDragEvent (at_point 5 5)) = Inr (RBool True)
   \<and> RBool True \<noteq> RBool False
   \<and> entry MouseDragEvent 0 0 \<in> fst ` set (calls (dispatch_after unit_square ()
          [Add (Listener (entry MouseDragEvent 0 0)), Add (Listener (entry MouseMotionEvent 0 0)),
           Dispatch MousePressEvent (at_point 0 0), Dispatch MouseMotionEvent (at_point 5 5)]
          MouseDragEvent (at_point 5 5)))
   \<and> entry MouseMotionEvent 0 0 \<in> set (event_listeners (fst (host_run unit_square (init, ())
          [Add (Listener (entry MouseDragEvent 0 0)), Add (Listener (entry MouseMotionEvent 0 0)),
           Dispatch MousePressEvent (at_point 0 0)])) MouseMotionEvent)
   \<and> entry MouseMotionEvent 0 0 \<notin> fst ` set (calls (dispatch_after unit_square ()
          [Add (Listener (entry MouseDragEvent 0 0)), Add (Listener (entry MouseMotionEvent 0 0)),
           Dispatch MousePressEvent (at_point 0 0)]
          MouseMotionEvent (at_point 5 5)))"
  using drag_is_sticky [where c = unit_square and w = "()" and Q = "(5, 5, 0)" and k = None
      and l = "entry MouseDragEvent 0 0" and l' = "entry MouseMotionEvent 0 0"
      and s = "(fst (host_run unit_square (init, ())
          [Add (Listener (entry MouseDragEvent 0 0)), Add (Listener (entry MouseMotionEvent 0 0)),
           Dispatch MousePressEvent (at_point 0 0)]))"]
  by (simp add: concrete_defs)

text \<open>
  C4 as worded has every captured listener invoked. Here two drag listeners are
  captured and the callback of the first returns \<^verbatim>\<open>False\<close>: the drag stops there and the
  second captured listener is not invoked.
\<close>

theorem drag_stopped_counterexample:
  "entry MouseDragEvent 1 0 \<in> set (draggable_object_listeners (fst (host_run unit_square (init, ())
          [Add (Listener (entry MouseDragEvent 0 2)), Add (Listener (entry MouseDragEvent 1 0)),
           Dispatch MousePressEvent (at_point 0 0)])))
   \<and> \<not> is_point_touching unit_square () 1 (5, 5, 0)
   \<and> map fst (calls (dispatch_after unit_square ()
          [Add (Listener (entry MouseDragEvent 0 2)), Add (Listener (entry MouseDragEvent 1 0)),
           Dispatch MousePressEvent (at_point 0 0), Dispatch MouseMotionEvent (at_point 5 5)]
          MouseDragEvent (at_point 5 5))) = [entry MouseDragEvent 0 2]
   \<and> entry MouseDragEvent 1 0 \<notin> fst ` set (calls (dispatch_after unit_square ()
          [Add (Listener (entry MouseDragEvent 0 2)), Add (Listener (entry MouseDragEvent 1 0)),
           Dispatch MousePressEvent (at_point 0 0), Dispatch MouseMotionEvent (at_point 5 5)]
          MouseDragEvent (at_point 5 5)))
   \<and> returned (dispatch_after unit_square ()
          [Add (Listener (entry MouseDragEvent 0 2)), Add (Listener (entry MouseDragEvent 1 0)),
           Dispatch MousePressEvent (at_point 0 0), Dispatch MouseMotionEvent (at_point 5 5)]
          MouseDragEvent (at_point 5 5)) = Inr (RBool False)"
  by (simp add: concrete_defs)

end
